theory Spec2Isabelle
  imports Main
begin

section \<open>Event vocabulary (services/websocket.ts)\<close>

text \<open>
  Payloads follow the TypeScript interfaces. Identifiers and round numbers are
  JavaScript numbers that only ever hold integers here, so they are \<open>int\<close>. A field
  declared optional, or one the code guards with a truthiness or \<open>typeof\<close> test, is
  an \<open>option\<close>: \<open>None\<close> is the absent field. Display-only fields that no handler
  and no grouping step reads are left out of the larger payloads.
\<close>

record PhaseChangeData =
  pc_phase :: string
  pc_round :: "int option"

record NightActionData =
  na_channel :: string
  na_player_id :: "int option"
  na_target :: "int option"
  na_discussion_round :: "int option"
  na_speech :: "string option"
  na_ai_notes :: "string option"

record WolfDiscussionData =
  wd_discussion_round :: int
  wd_wolf_id :: int
  wd_target :: int
  wd_speech :: string
  wd_ai_notes :: "string option"

record SpeechData =
  sp_player_id :: int
  sp_content :: string
  sp_is_last_words :: bool
  sp_is_explode :: bool

record VoteData =
  vt_votes :: "(int \<times> int) list"
  vt_counts :: "(int \<times> int) list"

record VoteCastData =
  vc_voter_id :: int
  vc_target :: "int option"

record DeathData =
  de_player_id :: int
  de_cause :: string

record JudgeNarrationData =
  jn_text :: string
  jn_deaths :: "int list"

record AIThinkingData =
  ai_player_id :: "int option"
  ai_player_ids :: "int list option"
  ai_phase :: string

record GameEndData =
  ge_winner :: string
  ge_round :: int

record GameControlData =
  gc_action :: string

record GameErrorData =
  er_message :: string

text \<open>
  The sheriff election payload is untyped in the source (\<open>data: unknown\<close>); the
  handler reads five fields, each numeric one behind \<open>typeof ... === "number"\<close>, so a
  numeric field is \<open>Some n\<close> exactly when that test succeeds.
\<close>

record SheriffElectionData =
  se_phase :: string
  se_player_id :: "int option"
  se_voter_id :: "int option"
  se_sheriff_id :: "int option"
  se_to :: "int option"

text \<open>
  The tagged union \<open>GameEvent\<close>. \<open>OtherEvent t\<close> is an event whose type string \<open>t\<close>
  is none of the thirteen declared tags (a type from a newer server).
\<close>

datatype GameEvent =
    PhaseChange PhaseChangeData
  | NightAction NightActionData
  | WolfDiscussion WolfDiscussionData
  | Speech SpeechData
  | Vote VoteData
  | VoteCast VoteCastData
  | Death DeathData
  | JudgeNarration JudgeNarrationData
  | AIThinking AIThinkingData
  | GameEnd GameEndData
  | GameControl GameControlData
  | GameError GameErrorData
  | SheriffElection SheriffElectionData
  | OtherEvent string

fun event_type :: "GameEvent \<Rightarrow> string" where
  "event_type (PhaseChange d) = ''game.phase_change''"
| "event_type (NightAction d) = ''game.night_action''"
| "event_type (WolfDiscussion d) = ''game.wolf_discussion''"
| "event_type (Speech d) = ''game.speech''"
| "event_type (Vote d) = ''game.vote''"
| "event_type (VoteCast d) = ''game.vote_cast''"
| "event_type (Death d) = ''game.death''"
| "event_type (JudgeNarration d) = ''game.judge_narration''"
| "event_type (AIThinking d) = ''game.ai_thinking''"
| "event_type (GameEnd d) = ''game.end''"
| "event_type (GameControl d) = ''game.control''"
| "event_type (GameError d) = ''game.error''"
| "event_type (SheriffElection d) = ''game.sheriff_election''"
| "event_type (OtherEvent t) = t"

text \<open>
  \<open>GameLog\<close>: the source stores \<open>type\<close> and \<open>data\<close> side by side; here they travel
  together as the tagged event, and \<open>event_type (log_event l)\<close> is the \<open>type\<close> field.
\<close>

record GameLog =
  log_id :: nat
  log_event :: GameEvent
  log_timestamp :: int

text \<open>
  JavaScript's \<open>x || y\<close> on an optional number: \<open>x\<close> when it is present and not
  zero, otherwise \<open>y\<close>.
\<close>

definition js_or :: "int option \<Rightarrow> int \<Rightarrow> int" where
  "js_or x y = (case x of None \<Rightarrow> y | Some v \<Rightarrow> if v \<noteq> 0 then v else y)"

section \<open>Grouping the log by round (utils/logGrouper.ts)\<close>

datatype seg_phase = night | day

record RoundGroup =
  rg_round :: int
  nightLogs :: "GameLog list"
  dayLogs :: "GameLog list"

text \<open>The loop variables of \<open>groupLogsByRound\<close>.\<close>

record seg_state =
  groups :: "RoundGroup list"
  currentRound :: int
  currentPhase :: seg_phase
  currentGroup :: RoundGroup

definition group_nonempty :: "RoundGroup \<Rightarrow> bool" where
  "group_nonempty g = (length (nightLogs g) > 0 \<or> length (dayLogs g) > 0)"

text \<open>Push a log into the bucket of the current phase.\<close>

definition push_current :: "GameLog \<Rightarrow> seg_state \<Rightarrow> seg_state" where
  "push_current l st =
     (if currentPhase st = night
      then st\<lparr>currentGroup := (currentGroup st)\<lparr>nightLogs := nightLogs (currentGroup st) @ [l]\<rparr>\<rparr>
      else st\<lparr>currentGroup := (currentGroup st)\<lparr>dayLogs := dayLogs (currentGroup st) @ [l]\<rparr>\<rparr>)"

text \<open>Flush: \<open>groups.push(currentGroup)\<close> when the group holds a log.\<close>

definition flush_groups :: "seg_state \<Rightarrow> RoundGroup list" where
  "flush_groups st =
     (if group_nonempty (currentGroup st) then groups st @ [currentGroup st] else groups st)"

text \<open>One iteration of the \<open>for (const log of logs)\<close> body.\<close>

definition seg_step :: "seg_state \<Rightarrow> GameLog \<Rightarrow> seg_state" where
  "seg_step st l =
     (case log_event l of
        PhaseChange d \<Rightarrow>
          if pc_phase d = ''NIGHT_PHASE'' then
            (let newRound = js_or (pc_round d) (currentRound st + 1) in
             \<lparr>groups = flush_groups st,
              currentRound = newRound,
              currentPhase = night,
              currentGroup = \<lparr>rg_round = newRound, nightLogs = [l], dayLogs = []\<rparr>\<rparr>)
          else if pc_phase d = ''DAY_PHASE'' then
            st\<lparr>currentPhase := day,
               currentGroup := (currentGroup st)\<lparr>dayLogs := dayLogs (currentGroup st) @ [l]\<rparr>\<rparr>
          else if pc_phase d = ''GAME_END'' then push_current l st
          else push_current l st
      | _ \<Rightarrow> push_current l st)"

definition seg_init :: seg_state where
  "seg_init =
     \<lparr>groups = [], currentRound = 0, currentPhase = day,
      currentGroup = \<lparr>rg_round = 0, nightLogs = [], dayLogs = []\<rparr>\<rparr>"

definition groupLogsByRound :: "GameLog list \<Rightarrow> RoundGroup list" where
  "groupLogsByRound logs =
     (if length logs = 0 then [] else flush_groups (foldl seg_step seg_init logs))"

text \<open>The logs of a list of groups, read group by group, night bucket first.\<close>

definition group_logs :: "RoundGroup \<Rightarrow> GameLog list" where
  "group_logs g = nightLogs g @ dayLogs g"

definition all_logs :: "RoundGroup list \<Rightarrow> GameLog list" where
  "all_logs gs = concat (map group_logs gs)"

section \<open>The reducer of \<open>useGameWebSocket\<close> (services/websocket.ts)\<close>

record PlayerInfo =
  role :: string
  faction :: string
  is_alive :: bool
  is_sheriff :: bool
  llm_config_id :: "int option"

text \<open>
  \<open>players\<close> is a JavaScript object keyed by strings: an association list, read
  with \<open>map_of\<close> and written with \<open>obj_set\<close>.
\<close>

record GameUIState =
  phase :: string
  round :: int
  winner :: "string option"
  paused :: bool
  thinkingPlayers :: "int list"
  logs :: "GameLog list"
  nightActions :: "NightActionData list"
  players :: "(string \<times> PlayerInfo) list"
  sheriff :: "int option"

text \<open>
  What the hook holds between two callbacks: the React state, the counter
  \<open>logIdRef\<close> and the keys of \<open>thinkingTimersRef\<close> (the actors with a live
  fallback timer).
\<close>

record HookState =
  state :: GameUIState
  logIdRef :: nat
  thinkingTimers :: "int set"

definition initial_state :: GameUIState where
  "initial_state =
     \<lparr>phase = ''GAME_START'', round = 0, winner = None, paused = False,
      thinkingPlayers = [], logs = [], nightActions = [], players = [], sheriff = None\<rparr>"

definition hook_init :: HookState where
  "hook_init = \<lparr>state = initial_state, logIdRef = 0, thinkingTimers = {}\<rparr>"

text \<open>\<open>String(n)\<close> for an integer \<open>n\<close>: its decimal numeral.\<close>

fun nat_digits :: "nat \<Rightarrow> string" where
  "nat_digits n =
     (if n < 10 then [''0123456789'' ! n]
      else nat_digits (n div 10) @ [''0123456789'' ! (n mod 10)])"

declare nat_digits.simps [simp del]

definition String_of_number :: "int \<Rightarrow> string" where
  "String_of_number n =
     (if n < 0 then CHR ''-'' # nat_digits (nat (- n)) else nat_digits (nat n))"

text \<open>\<open>obj[k] = v\<close>: an existing key keeps its place, a new key goes last.\<close>

fun obj_set :: "string \<Rightarrow> 'v \<Rightarrow> (string \<times> 'v) list \<Rightarrow> (string \<times> 'v) list" where
  "obj_set k v [] = [(k, v)]"
| "obj_set k v ((k', v') # al) =
     (if k' = k then (k, v) # al else (k', v') # obj_set k v al)"

text \<open>\<open>[...new Set(xs)]\<close>: each value once, in order of first insertion.\<close>

definition js_set_list :: "int list \<Rightarrow> int list" where
  "js_set_list xs = fold (\<lambda>x acc. if x \<in> set acc then acc else acc @ [x]) xs []"

definition addLog :: "int \<Rightarrow> GameEvent \<Rightarrow> HookState \<Rightarrow> HookState" where
  "addLog now e h =
     (let n = logIdRef h + 1 in
      h\<lparr>logIdRef := n,
        state := (state h)\<lparr>logs := logs (state h) @
                   [\<lparr>log_id = n, log_event = e, log_timestamp = now\<rparr>]\<rparr>\<rparr>)"

text \<open>\<open>thinkingPlayers.filter((id) => id !== pid)\<close>.\<close>

definition drop_thinking :: "int \<Rightarrow> GameUIState \<Rightarrow> GameUIState" where
  "drop_thinking pid s = s\<lparr>thinkingPlayers := filter (\<lambda>i. i \<noteq> pid) (thinkingPlayers s)\<rparr>"

text \<open>\<open>clearTimeout\<close> and \<open>delete\<close> of an actor's timer, when there is one.\<close>

definition clear_timer :: "int \<Rightarrow> HookState \<Rightarrow> HookState" where
  "clear_timer pid h =
     (if pid \<in> thinkingTimers h then h\<lparr>thinkingTimers := thinkingTimers h - {pid}\<rparr> else h)"

definition sequentialPhases :: "string list" where
  "sequentialPhases =
     [''vote'', ''discussion'', ''last_words'', ''sheriff_register'', ''sheriff_speech'',
      ''sheriff_vote'', ''sheriff_adjust_order'', ''hunter_shoot'']"

text \<open>
  The \<open>ids\<close> of an \<open>ai_thinking\<close> event: \<open>player_ids\<close> when present (an array is
  truthy even when empty), else the single \<open>player_id\<close> when present and not zero,
  else nothing.
\<close>

definition thinking_ids :: "AIThinkingData \<Rightarrow> int list" where
  "thinking_ids d =
     (case ai_player_ids d of
        Some xs \<Rightarrow> xs
      | None \<Rightarrow> (case ai_player_id d of
                   Some p \<Rightarrow> if p \<noteq> 0 then [p] else []
                 | None \<Rightarrow> []))"

text \<open>The loop that clears \<open>is_sheriff\<close> on every entry that has it.\<close>

definition clear_sheriff_marks :: "(string \<times> PlayerInfo) list \<Rightarrow> (string \<times> PlayerInfo) list" where
  "clear_sheriff_marks ps =
     map (\<lambda>(pid, p). if is_sheriff p then (pid, p\<lparr>is_sheriff := False\<rparr>) else (pid, p)) ps"

text \<open>\<open>if (updatedPlayers[sid]) updatedPlayers[sid] = {..., is_sheriff: true}\<close>.\<close>

definition mark_sheriff :: "string \<Rightarrow> (string \<times> PlayerInfo) list \<Rightarrow> (string \<times> PlayerInfo) list" where
  "mark_sheriff sid ps =
     (case map_of ps sid of
        None \<Rightarrow> ps
      | Some p \<Rightarrow> obj_set sid (p\<lparr>is_sheriff := True\<rparr>) ps)"

text \<open>The five consecutive \<open>if\<close> statements of the \<open>game.sheriff_election\<close> case.\<close>

definition sheriff_register_decision :: "SheriffElectionData \<Rightarrow> GameUIState \<Rightarrow> GameUIState" where
  "sheriff_register_decision d s =
     (case se_player_id d of
        Some pid \<Rightarrow> if se_phase d = ''register_decision'' then drop_thinking pid s else s
      | None \<Rightarrow> s)"

definition sheriff_vote_cast :: "SheriffElectionData \<Rightarrow> GameUIState \<Rightarrow> GameUIState" where
  "sheriff_vote_cast d s =
     (case se_voter_id d of
        Some vid \<Rightarrow> if se_phase d = ''vote_cast'' then drop_thinking vid s else s
      | None \<Rightarrow> s)"

definition sheriff_elected :: "SheriffElectionData \<Rightarrow> GameUIState \<Rightarrow> GameUIState" where
  "sheriff_elected d s =
     (case se_sheriff_id d of
        Some n \<Rightarrow>
          if se_phase d = ''elected''
          then s\<lparr>sheriff := Some n,
                 players := mark_sheriff (String_of_number n) (clear_sheriff_marks (players s))\<rparr>
          else s
      | None \<Rightarrow> s)"

definition sheriff_badge_transferred :: "SheriffElectionData \<Rightarrow> GameUIState \<Rightarrow> GameUIState" where
  "sheriff_badge_transferred d s =
     (case se_to d of
        Some n \<Rightarrow>
          if se_phase d = ''badge_transferred''
          then s\<lparr>sheriff := Some n,
                 players := mark_sheriff (String_of_number n) (clear_sheriff_marks (players s))\<rparr>
          else s
      | None \<Rightarrow> s)"

definition sheriff_badge_destroyed :: "SheriffElectionData \<Rightarrow> GameUIState \<Rightarrow> GameUIState" where
  "sheriff_badge_destroyed d s =
     (if se_phase d = ''badge_destroyed''
      then s\<lparr>sheriff := None, players := clear_sheriff_marks (players s)\<rparr>
      else s)"

definition sheriff_election :: "SheriffElectionData \<Rightarrow> GameUIState \<Rightarrow> GameUIState" where
  "sheriff_election d s =
     sheriff_badge_destroyed d
       (sheriff_badge_transferred d
         (sheriff_elected d
           (sheriff_vote_cast d
             (sheriff_register_decision d s))))"

text \<open>The \<open>game.death\<close> updater; an actor missing from the roster returns \<open>prev\<close>.\<close>

definition death_update :: "DeathData \<Rightarrow> GameUIState \<Rightarrow> GameUIState" where
  "death_update d s =
     (let pid = String_of_number (de_player_id d) in
      case map_of (players s) pid of
        None \<Rightarrow> s
      | Some p \<Rightarrow>
          s\<lparr>players := obj_set pid (p\<lparr>is_alive := False\<rparr>) (players s),
            thinkingPlayers := filter (\<lambda>i. i \<noteq> de_player_id d) (thinkingPlayers s)\<rparr>)"

text \<open>The \<open>game.ai_thinking\<close> updater: arm a timer per listed actor, then replace or union.\<close>

definition ai_thinking_update :: "AIThinkingData \<Rightarrow> HookState \<Rightarrow> HookState" where
  "ai_thinking_update d h =
     (let ids = thinking_ids d;
          isSequential = (ai_phase d \<in> set sequentialPhases);
          newThinking = (if isSequential then ids
                         else js_set_list (thinkingPlayers (state h) @ ids))
      in h\<lparr>thinkingTimers := thinkingTimers h \<union> set ids,
           state := (state h)\<lparr>thinkingPlayers := newThinking\<rparr>\<rparr>)"

text \<open>The \<open>switch (event.type)\<close>; a type without a case falls through untouched.\<close>

fun handle_event :: "GameEvent \<Rightarrow> HookState \<Rightarrow> HookState" where
  "handle_event (PhaseChange d) h =
     h\<lparr>state := (state h)
          \<lparr>phase := pc_phase d,
           round := js_or (pc_round d) (round (state h)),
           nightActions := (if pc_phase d = ''NIGHT_PHASE'' then [] else nightActions (state h)),
           thinkingPlayers := []\<rparr>\<rparr>"
| "handle_event (NightAction d) h =
     (let h1 = (case na_player_id d of Some pid \<Rightarrow> clear_timer pid h | None \<Rightarrow> h) in
      h1\<lparr>state := (state h1)
           \<lparr>nightActions := nightActions (state h1) @ [d],
            thinkingPlayers :=
              filter (\<lambda>i. Some i \<noteq> na_player_id d) (thinkingPlayers (state h1))\<rparr>\<rparr>)"
| "handle_event (WolfDiscussion d) h =
     (let h1 = clear_timer (wd_wolf_id d) h in
      h1\<lparr>state := (state h1)
           \<lparr>nightActions := nightActions (state h1) @
              [\<lparr>na_channel = ''wolf_discussion'',
                na_player_id = Some (wd_wolf_id d),
                na_target = Some (wd_target d),
                na_discussion_round = Some (wd_discussion_round d),
                na_speech = Some (wd_speech d),
                na_ai_notes = wd_ai_notes d\<rparr>],
            thinkingPlayers :=
              filter (\<lambda>i. i \<noteq> wd_wolf_id d) (thinkingPlayers (state h1))\<rparr>\<rparr>)"
| "handle_event (AIThinking d) h = ai_thinking_update d h"
| "handle_event (Speech d) h =
     (let h1 = clear_timer (sp_player_id d) h in
      h1\<lparr>state := drop_thinking (sp_player_id d) (state h1)\<rparr>)"
| "handle_event (VoteCast d) h =
     (let h1 = clear_timer (vc_voter_id d) h in
      h1\<lparr>state := drop_thinking (vc_voter_id d) (state h1)\<rparr>)"
| "handle_event (Death d) h = h\<lparr>state := death_update d (state h)\<rparr>"
| "handle_event (GameEnd d) h =
     h\<lparr>state := (state h)\<lparr>winner := Some (ge_winner d), phase := ''GAME_END''\<rparr>\<rparr>"
| "handle_event (GameControl d) h =
     h\<lparr>state := (state h)\<lparr>paused := (gc_action d = ''paused'')\<rparr>\<rparr>"
| "handle_event (SheriffElection d) h = h\<lparr>state := sheriff_election d (state h)\<rparr>"
| "handle_event (Vote d) h = h"
| "handle_event (JudgeNarration d) h = h"
| "handle_event (GameError d) h = h"
| "handle_event (OtherEvent t) h = h"

text \<open>The type strings that have a \<open>case\<close> in the switch.\<close>

definition switch_cases :: "string list" where
  "switch_cases =
     [''game.phase_change'', ''game.night_action'', ''game.wolf_discussion'',
      ''game.ai_thinking'', ''game.speech'', ''game.vote_cast'', ''game.death'',
      ''game.end'', ''game.control'', ''game.sheriff_election'']"

text \<open>
  The handler passed to \<open>ws.onEvent\<close>: log first, then the switch. \<open>now\<close> is the
  reading of \<open>Date.now()\<close> at that moment.
\<close>

definition onEvent :: "int \<Rightarrow> GameEvent \<Rightarrow> HookState \<Rightarrow> HookState" where
  "onEvent now e h = handle_event e (addLog now e h)"

text \<open>
  The callback of a fallback timer, 30 seconds after it was armed; a timer that was
  cleared in the meantime never runs.
\<close>

definition timer_fired :: "int \<Rightarrow> HookState \<Rightarrow> HookState" where
  "timer_fired pid h =
     (if pid \<in> thinkingTimers h
      then h\<lparr>state := drop_thinking pid (state h),
             thinkingTimers := thinkingTimers h - {pid}\<rparr>
      else h)"

text \<open>What can happen to the hook, one callback at a time.\<close>

datatype hook_step = Deliver int GameEvent | TimerFired int

fun hook_do :: "HookState \<Rightarrow> hook_step \<Rightarrow> HookState" where
  "hook_do h (Deliver now e) = onEvent now e h"
| "hook_do h (TimerFired pid) = timer_fired pid h"

definition run_hook :: "HookState \<Rightarrow> hook_step list \<Rightarrow> HookState" where
  "run_hook h steps = foldl hook_do h steps"

text \<open>The states passed through, the starting one first.\<close>

fun hook_trace :: "HookState \<Rightarrow> hook_step list \<Rightarrow> HookState list" where
  "hook_trace h [] = [h]"
| "hook_trace h (x # xs) = h # hook_trace (hook_do h x) xs"

text \<open>Number of roster entries carrying the sheriff mark.\<close>

definition sheriff_count :: "(string \<times> PlayerInfo) list \<Rightarrow> nat" where
  "sheriff_count ps = length (filter (\<lambda>kp. is_sheriff (snd kp)) ps)"

section \<open>The transport \<open>GameWebSocket\<close> (services/websocket.ts)\<close>

datatype ConnectionStatus = connecting | connected | disconnected | reconnecting

text \<open>
  The fields of the object. A socket, a timeout and a subscribed callback are each
  named by a number; \<open>ws\<close> and \<open>reconnectTimer\<close> are \<open>None\<close> for \<open>null\<close>.
\<close>

record GameWebSocket =
  ws :: "nat option"
  handlers :: "nat list"
  statusHandlers :: "nat list"
  reconnectTimer :: "nat option"
  manualClose :: bool
  gameId :: string

datatype ready_state = CONNECTING | OPEN | CLOSING | CLOSED

text \<open>
  The object together with what surrounds it: every socket it has created with its
  \<open>readyState\<close>, every timeout it has set (\<open>True\<close> while pending), and the calls
  its subscribers have received, in order, each with the subscriber's number.
\<close>

record transport =
  self :: GameWebSocket
  sockets :: "ready_state list"
  timeouts :: "bool list"
  status_calls :: "(nat \<times> ConnectionStatus) list"
  event_calls :: "(nat \<times> GameEvent) list"

definition new_transport :: "string \<Rightarrow> transport" where
  "new_transport gid =
     \<lparr>self = \<lparr>ws = None, handlers = [], statusHandlers = [], reconnectTimer = None,
              manualClose = False, gameId = gid\<rparr>,
      sockets = [], timeouts = [], status_calls = [], event_calls = []\<rparr>"

text \<open>\<open>_notifyStatus\<close>: call every subscribed status handler with the status.\<close>

definition notifyStatus :: "ConnectionStatus \<Rightarrow> transport \<Rightarrow> transport" where
  "notifyStatus st w =
     w\<lparr>status_calls := status_calls w @ map (\<lambda>k. (k, st)) (statusHandlers (self w))\<rparr>"

definition connect :: "transport \<Rightarrow> transport" where
  "connect w =
     (let w1 = w\<lparr>self := (self w)\<lparr>manualClose := False\<rparr>\<rparr>;
          w2 = notifyStatus connecting w1
      in w2\<lparr>self := (self w2)\<lparr>ws := Some (length (sockets w2))\<rparr>,
            sockets := sockets w2 @ [CONNECTING]\<rparr>)"

definition onopen :: "transport \<Rightarrow> transport" where
  "onopen w = notifyStatus connected w"

text \<open>\<open>onmessage\<close>: \<open>None\<close> is a text that \<open>JSON.parse\<close> rejects.\<close>

definition onmessage :: "GameEvent option \<Rightarrow> transport \<Rightarrow> transport" where
  "onmessage m w =
     (case m of
        None \<Rightarrow> w
      | Some e \<Rightarrow> w\<lparr>event_calls := event_calls w @ map (\<lambda>k. (k, e)) (handlers (self w))\<rparr>)"

definition onclose :: "transport \<Rightarrow> transport" where
  "onclose w =
     (if \<not> manualClose (self w) then
        (let w1 = notifyStatus reconnecting w
         in w1\<lparr>self := (self w1)\<lparr>reconnectTimer := Some (length (timeouts w1))\<rparr>,
               timeouts := timeouts w1 @ [True]\<rparr>)
      else notifyStatus disconnected w)"

definition onEvent_subscribe :: "nat \<Rightarrow> transport \<Rightarrow> transport" where
  "onEvent_subscribe k w = w\<lparr>self := (self w)\<lparr>handlers := handlers (self w) @ [k]\<rparr>\<rparr>"

definition onStatus :: "nat \<Rightarrow> transport \<Rightarrow> transport" where
  "onStatus k w = w\<lparr>self := (self w)\<lparr>statusHandlers := statusHandlers (self w) @ [k]\<rparr>\<rparr>"

text \<open>\<open>clearTimeout\<close>: a pending timeout will not run; any other handle is ignored.\<close>

definition clearTimeout :: "nat \<Rightarrow> transport \<Rightarrow> transport" where
  "clearTimeout t w = (if t < length (timeouts w) then w\<lparr>timeouts := (timeouts w)[t := False]\<rparr> else w)"

text \<open>
  \<open>WebSocket.close()\<close>: a socket that is connecting or open starts closing; its
  close event is delivered later, as a callback of its own.
\<close>

definition socket_close :: "nat \<Rightarrow> transport \<Rightarrow> transport" where
  "socket_close i w =
     (if i < length (sockets w) \<and> (sockets w ! i = CONNECTING \<or> sockets w ! i = OPEN)
      then w\<lparr>sockets := (sockets w)[i := CLOSING]\<rparr> else w)"

definition disconnect :: "transport \<Rightarrow> transport" where
  "disconnect w =
     (let w1 = w\<lparr>self := (self w)\<lparr>manualClose := True\<rparr>\<rparr>;
          w2 = (case reconnectTimer (self w1) of Some t \<Rightarrow> clearTimeout t w1 | None \<Rightarrow> w1);
          w3 = (case ws (self w2) of Some i \<Rightarrow> socket_close i w2 | None \<Rightarrow> w2)
      in w3\<lparr>self := (self w3)\<lparr>ws := None, handlers := [], statusHandlers := []\<rparr>\<rparr>)"

text \<open>
  What happens to a transport: calls of its methods, and callbacks from the
  browser. A callback that cannot happen in the current state (an open event on a
  socket that is not connecting, a timeout that is not pending) gives \<open>None\<close>.
\<close>

datatype ws_action =
    Call_onEvent nat
  | Call_onStatus nat
  | Call_connect
  | Call_disconnect
  | Socket_opens nat
  | Socket_message nat "GameEvent option"
  | Socket_closes nat
  | Timeout_fires nat

fun ws_do :: "ws_action \<Rightarrow> transport \<Rightarrow> transport option" where
  "ws_do (Call_onEvent k) w = Some (onEvent_subscribe k w)"
| "ws_do (Call_onStatus k) w = Some (onStatus k w)"
| "ws_do Call_connect w = Some (connect w)"
| "ws_do Call_disconnect w = Some (disconnect w)"
| "ws_do (Socket_opens i) w =
     (if i < length (sockets w) \<and> sockets w ! i = CONNECTING
      then Some (onopen (w\<lparr>sockets := (sockets w)[i := OPEN]\<rparr>)) else None)"
| "ws_do (Socket_message i m) w =
     (if i < length (sockets w) \<and> sockets w ! i = OPEN
      then Some (onmessage m w) else None)"
| "ws_do (Socket_closes i) w =
     (if i < length (sockets w) \<and> sockets w ! i \<noteq> CLOSED
      then Some (onclose (w\<lparr>sockets := (sockets w)[i := CLOSED]\<rparr>)) else None)"
| "ws_do (Timeout_fires t) w =
     (if t < length (timeouts w) \<and> timeouts w ! t
      then Some (connect (w\<lparr>timeouts := (timeouts w)[t := False]\<rparr>)) else None)"

fun ws_run :: "transport \<Rightarrow> ws_action list \<Rightarrow> transport option" where
  "ws_run w [] = Some w"
| "ws_run w (a # as) = (case ws_do a w of None \<Rightarrow> None | Some w' \<Rightarrow> ws_run w' as)"

text \<open>The statuses subscriber \<open>k\<close> has been called with, in order.\<close>

definition seen_by :: "nat \<Rightarrow> transport \<Rightarrow> ConnectionStatus list" where
  "seen_by k w = map snd (filter (\<lambda>c. fst c = k) (status_calls w))"

section \<open>Auxiliary notions used to state the properties\<close>

text \<open>
  Loop invariant of \<open>groupLogsByRound\<close>: every flushed group holds a log, and while
  the cursor is in the night phase the day bucket of the open group is still empty
  (so reading night before day is reading in arrival order).
\<close>

definition seg_inv :: "seg_state \<Rightarrow> bool" where
  "seg_inv st =
     (list_all group_nonempty (groups st) \<and>
      (currentPhase st \<noteq> night \<or> dayLogs (currentGroup st) = []))"

text \<open>A log entry that opens a night, and the round its payload carries.\<close>

definition is_night_change :: "GameLog \<Rightarrow> bool" where
  "is_night_change l =
     (case log_event l of PhaseChange d \<Rightarrow> pc_phase d = ''NIGHT_PHASE'' | _ \<Rightarrow> False)"

definition payload_round :: "GameLog \<Rightarrow> int option" where
  "payload_round l = (case log_event l of PhaseChange d \<Rightarrow> pc_round d | _ \<Rightarrow> None)"

text \<open>
  The round numbers as the specification words them, to be compared with what
  \<open>groupLogsByRound\<close> produces: one round per night opening, the explicit round of
  the payload when there is one (and it is not zero), otherwise cursor plus one;
  in front of them round 0, when the log starts with an entry that opens no night.
\<close>

fun spec_night_rounds :: "int \<Rightarrow> GameLog list \<Rightarrow> int list" where
  "spec_night_rounds cur [] = []"
| "spec_night_rounds cur (l # ls) =
     (if is_night_change l
      then js_or (payload_round l) (cur + 1) #
           spec_night_rounds (js_or (payload_round l) (cur + 1)) ls
      else spec_night_rounds cur ls)"

definition spec_segment_rounds :: "GameLog list \<Rightarrow> int list" where
  "spec_segment_rounds L =
     (case L of [] \<Rightarrow> [] | l # ls \<Rightarrow> if is_night_change l then [] else [0]) @
     spec_night_rounds 0 L"

text \<open>No night opening carries a round below the cursor round it meets.\<close>

fun explicit_rounds_ok :: "int \<Rightarrow> GameLog list \<Rightarrow> bool" where
  "explicit_rounds_ok cur [] = True"
| "explicit_rounds_ok cur (l # ls) =
     (if is_night_change l
      then cur \<le> js_or (payload_round l) (cur + 1) \<and>
           explicit_rounds_ok (js_or (payload_round l) (cur + 1)) ls
      else explicit_rounds_ok cur ls)"

text \<open>
  The same for the reducer: no \<open>phase_change\<close> in the sequence carries a round
  below the round in force when it arrives (\<open>r\<close> is the round in force).
\<close>

fun payload_rounds_ok :: "int \<Rightarrow> hook_step list \<Rightarrow> bool" where
  "payload_rounds_ok r [] = True"
| "payload_rounds_ok r (Deliver now (PhaseChange d) # xs) =
     (r \<le> js_or (pc_round d) r \<and> payload_rounds_ok (js_or (pc_round d) r) xs)"
| "payload_rounds_ok r (x # xs) = payload_rounds_ok r xs"

text \<open>How many of the steps deliver an event.\<close>

fun deliveries :: "hook_step list \<Rightarrow> nat" where
  "deliveries [] = 0"
| "deliveries (Deliver now e # xs) = Suc (deliveries xs)"
| "deliveries (TimerFired pid # xs) = deliveries xs"

subsection \<open>Concrete inputs\<close>

definition mk_log :: "nat \<Rightarrow> GameEvent \<Rightarrow> GameLog" where
  "mk_log n e = \<lparr>log_id = n, log_event = e, log_timestamp = 1000 * int n\<rparr>"

definition mk_night_action :: "string \<Rightarrow> int \<Rightarrow> GameEvent" where
  "mk_night_action ch pid =
     NightAction \<lparr>na_channel = ch, na_player_id = Some pid, na_target = None,
                  na_discussion_round = None, na_speech = None, na_ai_notes = None\<rparr>"

definition mk_speech :: "int \<Rightarrow> GameEvent" where
  "mk_speech pid =
     Speech \<lparr>sp_player_id = pid, sp_content = ''pass'', sp_is_last_words = False,
             sp_is_explode = False\<rparr>"

definition mk_phase :: "string \<Rightarrow> int option \<Rightarrow> GameEvent" where
  "mk_phase ph r = PhaseChange \<lparr>pc_phase = ph, pc_round = r\<rparr>"

definition mk_thinking :: "string \<Rightarrow> int \<Rightarrow> GameEvent" where
  "mk_thinking ph pid =
     AIThinking \<lparr>ai_player_id = Some pid, ai_player_ids = None, ai_phase = ph\<rparr>"

definition mk_sheriff :: "string \<Rightarrow> int option \<Rightarrow> int option \<Rightarrow> GameEvent" where
  "mk_sheriff ph sid to =
     SheriffElection \<lparr>se_phase = ph, se_player_id = None, se_voter_id = None,
                      se_sheriff_id = sid, se_to = to\<rparr>"

text \<open>The log of the basic round segmentation scenario.\<close>

definition scenario_log :: "GameLog list" where
  "scenario_log =
     [mk_log 1 (mk_phase ''NIGHT_PHASE'' (Some 1)),
      mk_log 2 (mk_night_action ''seer'' 4),
      mk_log 3 (mk_phase ''DAY_PHASE'' (Some 1)),
      mk_log 4 (mk_speech 3),
      mk_log 5 (mk_phase ''NIGHT_PHASE'' (Some 2)),
      mk_log 6 (mk_night_action ''guard'' 6)]"

text \<open>A log whose second night carries a smaller round than its first.\<close>

definition regressing_log :: "GameLog list" where
  "regressing_log =
     [mk_log 1 (mk_phase ''NIGHT_PHASE'' (Some 5)),
      mk_log 2 (mk_phase ''NIGHT_PHASE'' (Some 2))]"

definition demo_player :: "bool \<Rightarrow> PlayerInfo" where
  "demo_player sh =
     \<lparr>role = ''hunter'', faction = ''good'', is_alive = True, is_sheriff = sh,
      llm_config_id = None\<rparr>"

text \<open>
  A hook whose state was seeded with a roster of three (actor 2 holds the badge)
  and in which actor 7 is thinking, with its timer armed.
\<close>

definition demo_hook :: HookState where
  "demo_hook =
     \<lparr>state = initial_state
        \<lparr>players := [(''1'', demo_player False), (''2'', demo_player True),
                     (''7'', demo_player False)],
         sheriff := Some 2,
         thinkingPlayers := [7]\<rparr>,
      logIdRef = 0, thinkingTimers = {7}\<rparr>"

definition sheriff_steps :: "hook_step list" where
  "sheriff_steps =
     [Deliver 10 (mk_sheriff ''elected'' (Some 1) None),
      Deliver 20 (mk_sheriff ''badge_transferred'' None (Some 99)),
      Deliver 30 (mk_sheriff ''elected'' (Some 7) None),
      TimerFired 7,
      Deliver 40 (mk_sheriff ''badge_destroyed'' None None),
      Deliver 50 (mk_sheriff ''badge_transferred'' None (Some 1))]"

definition rising_steps :: "hook_step list" where
  "rising_steps =
     [Deliver 10 (mk_phase ''NIGHT_PHASE'' (Some 1)),
      Deliver 20 (mk_speech 3),
      Deliver 30 (mk_phase ''DAY_PHASE'' None),
      Deliver 40 (mk_phase ''NIGHT_PHASE'' (Some 2))]"

definition regressing_steps :: "hook_step list" where
  "regressing_steps =
     [Deliver 10 (mk_phase ''NIGHT_PHASE'' (Some 3)),
      Deliver 20 (mk_phase ''DAY_PHASE'' (Some 1))]"

text \<open>A subscriber, a connection that opens, then \<open>disconnect()\<close> and the close event.\<close>

definition manual_close_run :: "ws_action list" where
  "manual_close_run =
     [Call_onStatus 0, Call_connect, Socket_opens 0, Call_disconnect, Socket_closes 0]"

text \<open>The same start, but the connection drops and the retry timeout runs.\<close>

definition dropped_run :: "ws_action list" where
  "dropped_run =
     [Call_onStatus 0, Call_connect, Socket_opens 0, Socket_closes 0, Timeout_fires 0]"

section \<open>Properties of the grouping\<close>

lemma seg_inv_init: "seg_inv seg_init"
  by (simp add: seg_inv_def seg_init_def)

lemma seg_inv_step: "seg_inv st \<Longrightarrow> seg_inv (seg_step st l)"
  by (cases "log_event l")
     (auto simp: seg_inv_def seg_step_def push_current_def flush_groups_def Let_def)

lemma all_logs_flush_step:
  "seg_inv st \<Longrightarrow> all_logs (flush_groups (seg_step st l)) = all_logs (flush_groups st) @ [l]"
  by (cases "log_event l")
     (auto simp: seg_inv_def seg_step_def push_current_def flush_groups_def Let_def
                 all_logs_def group_logs_def group_nonempty_def)

lemma seg_inv_foldl: "seg_inv st \<Longrightarrow> seg_inv (foldl seg_step st ls)"
  by (induction ls arbitrary: st) (simp_all add: seg_inv_step)

lemma all_logs_foldl:
  "seg_inv st \<Longrightarrow>
   all_logs (flush_groups (foldl seg_step st ls)) = all_logs (flush_groups st) @ ls"
proof (induction ls arbitrary: st)
  case Nil
  then show ?case by simp
next
  case (Cons l ls)
  have "seg_inv (seg_step st l)"
    using Cons.prems by (rule seg_inv_step)
  then have "all_logs (flush_groups (foldl seg_step (seg_step st l) ls)) =
             all_logs (flush_groups (seg_step st l)) @ ls"
    by (rule Cons.IH)
  then show ?case
    using Cons.prems by (simp add: all_logs_flush_step)
qed

lemma flush_groups_nonempty:
  "seg_inv st \<Longrightarrow> list_all group_nonempty (flush_groups st)"
  by (simp add: seg_inv_def flush_groups_def)

text \<open>
  C10. Segmentation is a partition of its input: reading the groups of
  \<open>groupLogsByRound L\<close> in output order, each group's night logs followed by its
  day logs, gives back exactly \<open>L\<close> (nothing dropped, duplicated or reordered), and
  every returned group holds at least one log.
\<close>

theorem groupLogsByRound_partition:
  "all_logs (groupLogsByRound L) = L \<and> list_all group_nonempty (groupLogsByRound L)"
proof (cases "L = []")
  case True
  then show ?thesis by (simp add: groupLogsByRound_def all_logs_def)
next
  case False
  have inv: "seg_inv (foldl seg_step seg_init L)"
    using seg_inv_init by (rule seg_inv_foldl)
  have "all_logs (flush_groups (foldl seg_step seg_init L)) = all_logs (flush_groups seg_init) @ L"
    using seg_inv_init by (rule all_logs_foldl)
  moreover have "all_logs (flush_groups seg_init) = []"
    by (simp add: flush_groups_def seg_init_def group_nonempty_def all_logs_def)
  ultimately show ?thesis
    using False flush_groups_nonempty [OF inv] by (simp add: groupLogsByRound_def)
qed

lemmas scenario_simps =
  scenario_log_def mk_log_def mk_phase_def mk_night_action_def mk_speech_def
  groupLogsByRound_def seg_step_def seg_init_def flush_groups_def group_nonempty_def
  push_current_def js_or_def

theorem groupLogsByRound_partition_witness:
  "map (\<lambda>g. (rg_round g, map log_id (nightLogs g), map log_id (dayLogs g)))
       (groupLogsByRound scenario_log) = [(1, [1, 2], [3, 4]), (2, [5, 6], [])] \<and>
   all_logs (groupLogsByRound scenario_log) = scenario_log \<and>
   list_all group_nonempty (groupLogsByRound scenario_log)"
proof -
  have "map (\<lambda>g. (rg_round g, map log_id (nightLogs g), map log_id (dayLogs g)))
            (groupLogsByRound scenario_log) = [(1, [1, 2], [3, 4]), (2, [5, 6], [])]"
    by (simp add: scenario_simps)
  then show ?thesis
    using groupLogsByRound_partition [of scenario_log] by simp
qed

text \<open>The round numbers of the groups are the ones the specification words.\<close>

lemma seg_step_night:
  "is_night_change l \<Longrightarrow>
   seg_step st l =
     \<lparr>groups = flush_groups st,
      currentRound = js_or (payload_round l) (currentRound st + 1),
      currentPhase = night,
      currentGroup = \<lparr>rg_round = js_or (payload_round l) (currentRound st + 1),
                      nightLogs = [l], dayLogs = []\<rparr>\<rparr>"
  by (cases "log_event l")
     (simp_all add: is_night_change_def payload_round_def seg_step_def Let_def)

lemma seg_step_other:
  "\<not> is_night_change l \<Longrightarrow>
   groups (seg_step st l) = groups st \<and>
   currentRound (seg_step st l) = currentRound st \<and>
   rg_round (currentGroup (seg_step st l)) = rg_round (currentGroup st) \<and>
   group_nonempty (currentGroup (seg_step st l))"
  by (cases "log_event l")
     (simp_all add: is_night_change_def seg_step_def push_current_def group_nonempty_def)

lemma rounds_foldl:
  "map rg_round (flush_groups (foldl seg_step st ls)) =
     map rg_round (groups st) @
     (if group_nonempty (currentGroup st) \<or> (ls \<noteq> [] \<and> \<not> is_night_change (hd ls))
      then [rg_round (currentGroup st)] else []) @
     spec_night_rounds (currentRound st) ls"
proof (induction ls arbitrary: st)
  case Nil
  show ?case by (simp add: flush_groups_def)
next
  case (Cons l ls)
  show ?case
  proof (cases "is_night_change l")
    case True
    show ?thesis
      using True Cons.IH [of "seg_step st l"]
      by (simp add: seg_step_night flush_groups_def group_nonempty_def)
  next
    case False
    show ?thesis
      using False Cons.IH [of "seg_step st l"] seg_step_other [OF False, of st]
      by simp
  qed
qed

lemma rounds_groupLogsByRound:
  "map rg_round (groupLogsByRound L) = spec_segment_rounds L"
proof (cases L)
  case Nil
  then show ?thesis by (simp add: groupLogsByRound_def spec_segment_rounds_def)
next
  case (Cons l ls)
  then show ?thesis
    using rounds_foldl [of seg_init L]
    by (simp add: groupLogsByRound_def spec_segment_rounds_def seg_init_def group_nonempty_def)
qed

lemma spec_night_rounds_sorted:
  "explicit_rounds_ok cur ls \<Longrightarrow>
   sorted (spec_night_rounds cur ls) \<and> (\<forall>x \<in> set (spec_night_rounds cur ls). cur \<le> x)"
proof (induction ls arbitrary: cur)
  case Nil
  then show ?case by simp
next
  case (Cons l ls)
  show ?case
  proof (cases "is_night_change l")
    case True
    let ?r = "js_or (payload_round l) (cur + 1)"
    from Cons.prems True have le: "cur \<le> ?r" and ok: "explicit_rounds_ok ?r ls"
      by simp_all
    from Cons.IH [OF ok] have s: "sorted (spec_night_rounds ?r ls)"
      and b: "\<forall>x \<in> set (spec_night_rounds ?r ls). ?r \<le> x" by simp_all
    from b le have "\<forall>x \<in> set (spec_night_rounds ?r ls). cur \<le> x" by auto
    with True s b le show ?thesis by simp
  next
    case False
    with Cons show ?thesis by simp
  qed
qed

text \<open>
  C4, as the claim states it, fails: on a log of two night openings carrying rounds
  5 and 2 the groups have rounds 5, 2. The sequence neither starts at 0 nor is it
  non-decreasing.
\<close>

theorem segment_rounds_counterexample:
  "map rg_round (groupLogsByRound regressing_log) = [5, 2] \<and>
   \<not> (sorted (map rg_round (groupLogsByRound regressing_log)) \<and>
      hd (map rg_round (groupLogsByRound regressing_log)) = 0)"
proof -
  have "map rg_round (groupLogsByRound regressing_log) = [5, 2]"
    by (simp add: regressing_log_def mk_log_def mk_phase_def groupLogsByRound_def
          seg_step_def seg_init_def flush_groups_def group_nonempty_def js_or_def)
  then show ?thesis by simp
qed

text \<open>
  C4, amended. For every log \<open>L\<close> the rounds of the groups of \<open>groupLogsByRound L\<close>,
  in output order, are: round 0 first exactly when \<open>L\<close> starts with an entry that
  opens no night; then one round per night opening, the explicit round of its
  payload when that is present and not zero, otherwise the previous cursor round
  plus one. The sequence is non-decreasing whenever no night opening carries an
  explicit round below the cursor round it meets.
\<close>

theorem segment_rounds_characterised:
  "map rg_round (groupLogsByRound L) = spec_segment_rounds L \<and>
   (explicit_rounds_ok 0 L \<longrightarrow> sorted (map rg_round (groupLogsByRound L)))"
proof -
  have "sorted (spec_segment_rounds L)" if ok: "explicit_rounds_ok 0 L"
    using spec_night_rounds_sorted [OF ok]
    by (cases L) (auto simp: spec_segment_rounds_def sorted_append)
  then show ?thesis by (simp add: rounds_groupLogsByRound)
qed

theorem segment_rounds_characterised_witness:
  "explicit_rounds_ok 0 scenario_log \<and>
   spec_segment_rounds scenario_log = [1, 2] \<and>
   map rg_round (groupLogsByRound scenario_log) = [1, 2] \<and>
   sorted (map rg_round (groupLogsByRound scenario_log))"
proof -
  have ok: "explicit_rounds_ok 0 scenario_log"
    by (simp add: scenario_log_def mk_log_def mk_phase_def mk_night_action_def mk_speech_def
          is_night_change_def payload_round_def js_or_def)
  have r: "spec_segment_rounds scenario_log = [1, 2]"
    by (simp add: spec_segment_rounds_def scenario_log_def mk_log_def mk_phase_def
          mk_night_action_def mk_speech_def is_night_change_def payload_round_def js_or_def)
  show ?thesis
    using ok r segment_rounds_characterised [of scenario_log] by simp
qed

section \<open>Properties of the reducer\<close>

subsection \<open>What each callback leaves alone\<close>

lemma state_addLog [simp]:
  "state (addLog now e h) =
     (state h)\<lparr>logs := logs (state h) @
        [\<lparr>log_id = logIdRef h + 1, log_event = e, log_timestamp = now\<rparr>]\<rparr>"
  by (simp add: addLog_def Let_def)

lemma logIdRef_addLog [simp]: "logIdRef (addLog now e h) = logIdRef h + 1"
  by (simp add: addLog_def Let_def)

lemma state_clear_timer [simp]: "state (clear_timer pid h) = state h"
  by (simp add: clear_timer_def)

lemma logIdRef_clear_timer [simp]: "logIdRef (clear_timer pid h) = logIdRef h"
  by (simp add: clear_timer_def)

lemmas sheriff_election_defs =
  sheriff_election_def sheriff_badge_destroyed_def sheriff_badge_transferred_def
  sheriff_elected_def sheriff_vote_cast_def sheriff_register_decision_def

lemma logs_handle_event [simp]: "logs (state (handle_event e h)) = logs (state h)"
  by (cases e)
     (simp_all add: Let_def drop_thinking_def death_update_def ai_thinking_update_def
        sheriff_election_defs split: option.splits)

lemma logIdRef_handle_event [simp]: "logIdRef (handle_event e h) = logIdRef h"
  by (cases e) (simp_all add: Let_def ai_thinking_update_def split: option.splits)

lemma logs_timer_fired [simp]: "logs (state (timer_fired pid h)) = logs (state h)"
  by (simp add: timer_fired_def drop_thinking_def)

lemma logIdRef_timer_fired [simp]: "logIdRef (timer_fired pid h) = logIdRef h"
  by (simp add: timer_fired_def)

lemma round_handle_event:
  "round (state (handle_event e h)) =
     (case e of PhaseChange d \<Rightarrow> js_or (pc_round d) (round (state h)) | _ \<Rightarrow> round (state h))"
  by (cases e)
     (simp_all add: Let_def drop_thinking_def death_update_def ai_thinking_update_def
        sheriff_election_defs split: option.splits)

lemma round_onEvent:
  "round (state (onEvent now e h)) =
     (case e of PhaseChange d \<Rightarrow> js_or (pc_round d) (round (state h)) | _ \<Rightarrow> round (state h))"
  by (simp add: onEvent_def round_handle_event split: GameEvent.split)

lemma round_timer_fired: "round (state (timer_fired pid h)) = round (state h)"
  by (simp add: timer_fired_def drop_thinking_def)

subsection \<open>Pending actors\<close>

lemma set_js_set_fold:
  "set (fold (\<lambda>x acc. if x \<in> set acc then acc else acc @ [x]) xs acc0) = set acc0 \<union> set xs"
  by (induction xs arbitrary: acc0) auto

lemma set_js_set_list: "set (js_set_list xs) = set xs"
  by (simp add: js_set_list_def set_js_set_fold)

text \<open>
  C1. An \<open>ai_thinking\<close> event whose phase tag is one of the eight sequential phases
  replaces the pending actors by exactly the actors the event lists; with any other
  phase tag the pending set afterwards is the union of the previous pending set and
  the listed actors. The listed actors are \<open>thinking_ids\<close>: the array \<open>player_ids\<close>
  when present, else the single \<open>player_id\<close> (an identifier 0 is falsy in the
  source and counts as absent; actors are numbered from 1).
\<close>

theorem ai_thinking_replace_or_union:
  "(if ai_phase d \<in> {''vote'', ''discussion'', ''last_words'', ''sheriff_register'',
                       ''sheriff_speech'', ''sheriff_vote'', ''sheriff_adjust_order'',
                       ''hunter_shoot''}
    then thinkingPlayers (state (onEvent now (AIThinking d) h)) = thinking_ids d
    else set (thinkingPlayers (state (onEvent now (AIThinking d) h))) =
           set (thinkingPlayers (state h)) \<union> set (thinking_ids d))"
  by (simp add: onEvent_def ai_thinking_update_def sequentialPhases_def Let_def
        set_js_set_list)

text \<open>
  The two scenarios of the claim: \<open>vote\<close> for actor 3 then actor 5 leaves just 5;
  the parallel wolf phase for actor 2 then actor 9 leaves 2 and 9.
\<close>

theorem ai_thinking_replace_or_union_witness:
  "thinkingPlayers (state (run_hook hook_init
      [Deliver 10 (mk_thinking ''vote'' 3), Deliver 20 (mk_thinking ''vote'' 5)])) = [5] \<and>
   set (thinkingPlayers (state (run_hook hook_init
      [Deliver 10 (mk_thinking ''wolf'' 2), Deliver 20 (mk_thinking ''wolf'' 9)]))) = {2, 9}"
  using
    ai_thinking_replace_or_union
      [of "\<lparr>ai_player_id = Some 5, ai_player_ids = None, ai_phase = ''vote''\<rparr>" 20
          "onEvent 10 (mk_thinking ''vote'' 3) hook_init"]
    ai_thinking_replace_or_union
      [of "\<lparr>ai_player_id = Some 2, ai_player_ids = None, ai_phase = ''wolf''\<rparr>" 10 hook_init]
    ai_thinking_replace_or_union
      [of "\<lparr>ai_player_id = Some 9, ai_player_ids = None, ai_phase = ''wolf''\<rparr>" 20
          "onEvent 10 (mk_thinking ''wolf'' 2) hook_init"]
  by (simp add: run_hook_def mk_thinking_def thinking_ids_def hook_init_def initial_state_def
        insert_commute)

text \<open>
  C9. A \<open>phase_change\<close> event leaves no pending actor, whatever phase it announces
  (night, day, game end or any other value).
\<close>

theorem phase_change_clears_pending:
  "thinkingPlayers (state (onEvent now (PhaseChange d) h)) = []"
  by (simp add: onEvent_def)

theorem phase_change_clears_pending_witness:
  "thinkingPlayers (state demo_hook) = [7] \<and>
   thinkingPlayers (state (onEvent 10 (mk_phase ''DAY_PHASE'' None) demo_hook)) = [] \<and>
   thinkingPlayers (state (onEvent 10 (mk_phase ''GAME_END'' (Some 4)) demo_hook)) = []"
  using phase_change_clears_pending [where h = demo_hook and now = 10]
  by (simp add: mk_phase_def demo_hook_def initial_state_def)

lemma map_of_obj_set_same: "map_of (obj_set k v ps) k = Some v"
  by (induction ps) auto

text \<open>
  C7. When actor \<open>pid\<close> (the claim takes 7) is in the roster, a \<open>death\<close> event for
  that actor leaves the actor out of the pending actors and with \<open>is_alive\<close> false.
  Being pending beforehand is not needed for the conclusion.
\<close>

theorem death_clears_pending:
  "map_of (players (state h)) (String_of_number pid) = Some p \<Longrightarrow>
   pid \<notin> set (thinkingPlayers
              (state (onEvent now (Death \<lparr>de_player_id = pid, de_cause = c\<rparr>) h))) \<and>
   map_of (players (state (onEvent now (Death \<lparr>de_player_id = pid, de_cause = c\<rparr>) h)))
          (String_of_number pid) = Some (p\<lparr>is_alive := False\<rparr>)"
  by (simp add: onEvent_def death_update_def Let_def map_of_obj_set_same)

theorem death_clears_pending_witness:
  "map_of (players (state demo_hook)) (String_of_number 7) = Some (demo_player False) \<and>
   7 \<in> set (thinkingPlayers (state demo_hook)) \<and>
   7 \<notin> set (thinkingPlayers
            (state (onEvent 10 (Death \<lparr>de_player_id = 7, de_cause = ''shot''\<rparr>) demo_hook))) \<and>
   map_option is_alive
     (map_of (players (state (onEvent 10 (Death \<lparr>de_player_id = 7, de_cause = ''shot''\<rparr>)
                                demo_hook))) (String_of_number 7)) = Some False"
proof -
  have p: "map_of (players (state demo_hook)) (String_of_number 7) = Some (demo_player False)"
    by (simp add: demo_hook_def initial_state_def String_of_number_def nat_digits.simps)
  have t: "7 \<in> set (thinkingPlayers (state demo_hook))"
    by (simp add: demo_hook_def initial_state_def)
  show ?thesis
    using p t death_clears_pending [OF p, where now = 10 and c = "''shot''"] by simp
qed

subsection \<open>The event log\<close>

lemma log_ids_run:
  "map log_id (logs (state (run_hook h xs))) =
     map log_id (logs (state h)) @ [Suc (logIdRef h) ..< Suc (logIdRef h + deliveries xs)]
   \<and> logIdRef (run_hook h xs) = logIdRef h + deliveries xs"
proof (induction xs arbitrary: h)
  case Nil
  then show ?case by (simp add: run_hook_def)
next
  case (Cons x xs)
  show ?case
  proof (cases x)
    case (Deliver now e)
    have "Suc (logIdRef h) # [Suc (Suc (logIdRef h))..<Suc (Suc (logIdRef h + deliveries xs))]
          = [Suc (logIdRef h)..<Suc (Suc (logIdRef h + deliveries xs))]"
      by (simp add: upt_conv_Cons)
    then show ?thesis
      using Cons.IH [of "onEvent now e h"] Deliver
      by (simp add: run_hook_def onEvent_def)
  next
    case (TimerFired pid)
    then show ?thesis
      using Cons.IH [of "timer_fired pid h"] by (simp add: run_hook_def)
  qed
qed

text \<open>
  C5. Whatever its type, an inbound event appends exactly one entry for itself at
  the end of the log and leaves the entries already there as they were, in the same
  order. Over any run of the hook from its initial state the identifiers of the
  entries are 1, 2, 3, ... in arrival order, hence strictly increasing.
\<close>

theorem eventLog_append_only:
  "logs (state (onEvent now e h)) =
     logs (state h) @ [\<lparr>log_id = logIdRef h + 1, log_event = e, log_timestamp = now\<rparr>] \<and>
   map log_id (logs (state (run_hook hook_init xs))) = [1 ..< Suc (deliveries xs)] \<and>
   sorted_wrt (<) (map log_id (logs (state (run_hook hook_init xs))))"
proof -
  have ids: "map log_id (logs (state (run_hook hook_init xs))) = [1 ..< Suc (deliveries xs)]"
    using log_ids_run [of hook_init xs] by (simp add: hook_init_def initial_state_def)
  have "sorted_wrt (<) [1 ..< Suc (deliveries xs)]"
    by (rule sorted_wrt_upt)
  with ids show ?thesis by (simp add: onEvent_def)
qed

theorem eventLog_append_only_witness:
  "map log_id (logs (state (run_hook hook_init sheriff_steps))) = [1, 2, 3, 4, 5]"
  using eventLog_append_only [where xs = sheriff_steps]
  by (simp add: sheriff_steps_def upt_conv_Cons)

text \<open>
  C6. An event whose type string has no case in the switch changes nothing but the
  log: phase, round, winner, paused, the pending actors, the night actions, the
  roster and the sheriff are the same before and after.
\<close>

theorem unknown_type_frame:
  "event_type e \<notin> set switch_cases \<Longrightarrow>
   (state (onEvent now e h))\<lparr>logs := logs (state h)\<rparr> = state h"
  by (cases e) (simp_all add: switch_cases_def onEvent_def)

theorem unknown_type_frame_witness:
  "event_type (OtherEvent ''game.spectator_count'') \<notin> set switch_cases \<and>
   (state (onEvent 10 (OtherEvent ''game.spectator_count'') demo_hook))
      \<lparr>logs := logs (state demo_hook)\<rparr> = state demo_hook"
proof -
  have t: "event_type (OtherEvent ''game.spectator_count'') \<notin> set switch_cases"
    by (simp add: switch_cases_def)
  show ?thesis
    using t unknown_type_frame [OF t, where now = 10 and h = demo_hook] by simp
qed

subsection \<open>The round counter\<close>

lemma round_do:
  "round (state (hook_do h x)) =
     (case x of
        Deliver now (PhaseChange d) \<Rightarrow> js_or (pc_round d) (round (state h))
      | _ \<Rightarrow> round (state h))"
proof (cases x)
  case (Deliver now e)
  then show ?thesis
    by (cases e) (simp_all add: round_onEvent)
next
  case (TimerFired pid)
  then show ?thesis by (simp add: round_timer_fired)
qed

lemma payload_rounds_ok_step:
  "payload_rounds_ok (round (state h)) (x # xs) \<Longrightarrow>
   round (state h) \<le> round (state (hook_do h x)) \<and>
   payload_rounds_ok (round (state (hook_do h x))) xs"
proof (cases x)
  case (Deliver now e)
  assume "payload_rounds_ok (round (state h)) (x # xs)"
  with Deliver show ?thesis
    by (cases e) (simp_all add: round_onEvent)
next
  case (TimerFired pid)
  assume "payload_rounds_ok (round (state h)) (x # xs)"
  with TimerFired show ?thesis by (simp add: round_timer_fired)
qed

lemma round_trace_sorted:
  "payload_rounds_ok (round (state h)) xs \<Longrightarrow>
   sorted (map (\<lambda>h'. round (state h')) (hook_trace h xs)) \<and>
   (\<forall>r \<in> set (map (\<lambda>h'. round (state h')) (hook_trace h xs)). round (state h) \<le> r)"
proof (induction xs arbitrary: h)
  case Nil
  then show ?case by simp
next
  case (Cons x xs)
  from payload_rounds_ok_step [OF Cons.prems]
  have le: "round (state h) \<le> round (state (hook_do h x))"
    and ok: "payload_rounds_ok (round (state (hook_do h x))) xs" by simp_all
  from Cons.IH [OF ok] le show ?case by fastforce
qed

text \<open>
  C3, as the claim states it, fails: a \<open>phase_change\<close> carrying round 3 followed by
  one carrying round 1 takes the round from 0 to 3 and then down to 1.
\<close>

theorem round_regresses_counterexample:
  "map (\<lambda>h'. round (state h')) (hook_trace hook_init regressing_steps) = [0, 3, 1] \<and>
   \<not> sorted (map (\<lambda>h'. round (state h')) (hook_trace hook_init regressing_steps))"
proof -
  have "map (\<lambda>h'. round (state h')) (hook_trace hook_init regressing_steps) = [0, 3, 1]"
    by (simp add: regressing_steps_def mk_phase_def round_onEvent js_or_def hook_init_def
          initial_state_def)
  then show ?thesis by simp
qed

text \<open>
  C3, amended. Every callback other than a \<open>phase_change\<close> delivery leaves the round
  as it is; a \<open>phase_change\<close> sets it to the round of its payload when that is
  present and not zero (also when that is smaller) and leaves it as it is otherwise.
  Hence over any sequence in which no \<open>phase_change\<close> carries a round below the
  round in force when it arrives, the round never decreases.
\<close>

theorem round_follows_payload:
  "round (state (hook_do h x)) =
     (case x of
        Deliver now (PhaseChange d) \<Rightarrow> js_or (pc_round d) (round (state h))
      | _ \<Rightarrow> round (state h)) \<and>
   (payload_rounds_ok (round (state h)) xs \<longrightarrow>
      sorted (map (\<lambda>h'. round (state h')) (hook_trace h xs)))"
  using round_trace_sorted [of h xs] round_do [of h x] by blast

theorem round_follows_payload_witness:
  "payload_rounds_ok (round (state hook_init)) rising_steps \<and>
   map (\<lambda>h'. round (state h')) (hook_trace hook_init rising_steps) = [0, 1, 1, 1, 2] \<and>
   sorted (map (\<lambda>h'. round (state h')) (hook_trace hook_init rising_steps))"
proof -
  have ok: "payload_rounds_ok (round (state hook_init)) rising_steps"
    by (simp add: rising_steps_def mk_phase_def mk_speech_def js_or_def hook_init_def
          initial_state_def)
  have tr: "map (\<lambda>h'. round (state h')) (hook_trace hook_init rising_steps) = [0, 1, 1, 1, 2]"
    by (simp add: rising_steps_def mk_phase_def mk_speech_def round_onEvent js_or_def
          hook_init_def initial_state_def)
  show ?thesis
    using ok tr round_follows_payload [where h = hook_init and xs = rising_steps] by simp
qed

subsection \<open>The sheriff badge\<close>

lemma sheriff_count_clear: "sheriff_count (clear_sheriff_marks ps) = 0"
  unfolding sheriff_count_def clear_sheriff_marks_def
  by (auto simp: filter_empty_conv split: if_splits)

lemma sheriff_count_obj_set_le: "sheriff_count (obj_set k v ps) \<le> Suc (sheriff_count ps)"
  by (induction ps) (auto simp: sheriff_count_def)

lemma sheriff_count_mark_le: "sheriff_count (mark_sheriff sid ps) \<le> Suc (sheriff_count ps)"
  using sheriff_count_obj_set_le [of sid _ ps]
  by (auto simp: mark_sheriff_def split: option.splits)

lemma sheriff_count_obj_set_same:
  "map_of ps k = Some p \<Longrightarrow> is_sheriff v = is_sheriff p \<Longrightarrow>
   sheriff_count (obj_set k v ps) = sheriff_count ps"
  by (induction ps) (auto simp: sheriff_count_def)

lemma sheriff_count_death:
  "sheriff_count (players (death_update d s)) = sheriff_count (players s)"
  by (auto simp: death_update_def Let_def sheriff_count_obj_set_same split: option.splits)

text \<open>Clear all, then mark at most one: never more than one mark.\<close>

lemma sheriff_count_clear_mark:
  "sheriff_count (mark_sheriff sid (clear_sheriff_marks ps)) \<le> Suc 0"
  using sheriff_count_mark_le [of sid "clear_sheriff_marks ps"]
  by (simp add: sheriff_count_clear)

lemma sheriff_count_election:
  assumes "sheriff_count (players s) \<le> Suc 0"
  shows "sheriff_count (players (sheriff_election d s)) \<le> Suc 0"
proof -
  have 1: "sheriff_count (players (sheriff_register_decision d s)) \<le> Suc 0"
    using assms by (simp add: sheriff_register_decision_def drop_thinking_def split: option.splits)
  have 2: "sheriff_count (players (sheriff_vote_cast d s')) \<le> Suc 0"
    if "sheriff_count (players s') \<le> Suc 0" for s'
    using that by (simp add: sheriff_vote_cast_def drop_thinking_def split: option.splits)
  have 3: "sheriff_count (players (sheriff_elected d s')) \<le> Suc 0"
    if "sheriff_count (players s') \<le> Suc 0" for s'
    using that by (simp add: sheriff_elected_def sheriff_count_clear_mark split: option.splits)
  have 4: "sheriff_count (players (sheriff_badge_transferred d s')) \<le> Suc 0"
    if "sheriff_count (players s') \<le> Suc 0" for s'
    using that
    by (simp add: sheriff_badge_transferred_def sheriff_count_clear_mark split: option.splits)
  have 5: "sheriff_count (players (sheriff_badge_destroyed d s')) \<le> Suc 0"
    if "sheriff_count (players s') \<le> Suc 0" for s'
    using that by (simp add: sheriff_badge_destroyed_def sheriff_count_clear)
  show ?thesis
    unfolding sheriff_election_def by (intro 5 4 3 2 1)
qed

lemma sheriff_count_handle:
  "sheriff_count (players (state h)) \<le> Suc 0 \<Longrightarrow>
   sheriff_count (players (state (handle_event e h))) \<le> Suc 0"
  by (cases e)
     (simp_all add: Let_def drop_thinking_def ai_thinking_update_def sheriff_count_death
        sheriff_count_election split: option.splits)

lemma sheriff_count_do:
  "sheriff_count (players (state h)) \<le> Suc 0 \<Longrightarrow>
   sheriff_count (players (state (hook_do h x))) \<le> Suc 0"
  by (cases x)
     (simp_all add: onEvent_def sheriff_count_handle timer_fired_def drop_thinking_def)

text \<open>
  C2. Starting from a state in which at most one roster entry carries the sheriff
  mark, after any sequence of callbacks (deliveries of events of any type, among
  them \<open>sheriff_election\<close> events naming actors that are not in the roster, and
  timer callbacks) at most one roster entry carries it.
\<close>

theorem sheriff_holder_at_most_one:
  "sheriff_count (players (state h)) \<le> 1 \<Longrightarrow>
   sheriff_count (players (state (run_hook h xs))) \<le> 1"
  unfolding run_hook_def
  by (induction xs arbitrary: h) (simp_all add: sheriff_count_do)

theorem sheriff_holder_at_most_one_witness:
  "sheriff_count (players (state demo_hook)) \<le> 1 \<and>
   sheriff_count (players (state (run_hook demo_hook sheriff_steps))) \<le> 1"
proof -
  have one: "sheriff_count (players (state demo_hook)) \<le> 1"
    by (simp add: demo_hook_def initial_state_def demo_player_def sheriff_count_def)
  show ?thesis
    using one sheriff_holder_at_most_one [OF one, of sheriff_steps] by simp
qed

section \<open>The status notifications of the transport\<close>

lemmas transport_defs =
  new_transport_def onStatus_def connect_def notifyStatus_def onopen_def onclose_def
  disconnect_def socket_close_def clearTimeout_def seen_by_def

text \<open>
  An unexpected close after the connection was open: the subscriber is called with
  connecting, connected, reconnecting and, once the retry timeout has run,
  connecting again, and a second socket exists.
\<close>

lemma dropped_connection_reconnects:
  "map_option (\<lambda>w. (seen_by 0 w, sockets w, timeouts w))
     (ws_run (new_transport gid) dropped_run) =
   Some ([connecting, connected, reconnecting, connecting], [CLOSED, CONNECTING], [False])"
  by (simp add: dropped_run_def transport_defs Let_def)

text \<open>With no subscriber left, a notification reaches nobody.\<close>

lemma notifyStatus_unsubscribed:
  "statusHandlers (self w) = [] \<Longrightarrow> notifyStatus st w = w"
  by (simp add: notifyStatus_def)

lemma disconnect_unsubscribes:
  "statusHandlers (self (disconnect w)) = [] \<and> manualClose (self (disconnect w)) \<and>
   status_calls (disconnect w) = status_calls w"
  by (simp add: disconnect_def socket_close_def clearTimeout_def Let_def split: option.splits)

text \<open>
  Whatever the state, \<open>disconnect()\<close> followed by the close event of a socket
  calls no status handler: the close handler does take the manual branch, but
  \<open>disconnect()\<close> has emptied \<open>statusHandlers\<close> before the event arrives.
\<close>

lemma manual_close_is_silent:
  "ws_run w [Call_disconnect, Socket_closes i] = Some w' \<Longrightarrow>
   status_calls w' = status_calls w \<and> timeouts w' = timeouts (disconnect w)"
  using disconnect_unsubscribes [of w]
  by (auto simp: onclose_def notifyStatus_def split: if_splits)

text \<open>
  C8. The first half of the claim holds (\<open>dropped_connection_reconnects\<close>). The
  second half does not: after connecting and connected, a manual \<open>disconnect()\<close>
  and the close event that follows it, the subscriber has been called with
  connecting and connected only: \<open>disconnected\<close> is never delivered. No retry
  is scheduled and no further socket is created, as the claim says.
\<close>

theorem manual_close_not_observed:
  "map_option (\<lambda>w. (seen_by 0 w, status_calls w, sockets w, timeouts w))
     (ws_run (new_transport gid) manual_close_run) =
   Some ([connecting, connected], [(0, connecting), (0, connected)], [CLOSED], [])"
  by (simp add: manual_close_run_def transport_defs Let_def)

end
